theory Spec2Isabelle
  imports Complex_Main "HOL-Library.Multiset"
begin

section \<open>The fitted estimators, as the notebooks observe them\<close>

text \<open>
  The notebooks delegate every fit to the machine-learning library and read back scalar
  scores only. A fitted classifier is therefore modelled by what the cells read from it:
  \<open>score\<close> on one of the data partitions (\<open>boost.score(X_train, y_train)\<close>) and, for the
  forests built with \<open>oob_score=True\<close>, the attribute \<open>oob_score_\<close> (field \<open>oob_score\<close>
  below: an identifier cannot end in an underscore here). Scores are accuracies,
  modelled as reals; only their order matters to the loops.
\<close>

datatype dataset = X_train | X_valid | X_test

record classifier =
  score :: "dataset \<Rightarrow> real"

record forest = classifier +
  oob_score :: real

text \<open>
  What the cells print, and the one exception their last lines can raise: reading a name
  that no assignment has bound. The line \<open>OOB: %0.5f\<close> carries the score itself here, not
  its five-digit rendering.
\<close>

datatype 'p line = OOB real | Best_parameters 'p

datatype error = NameError string

section \<open>Invoking fit\<close>

text \<open>
  \<open>est.set_params(**g)\<close> followed by \<open>est.fit(X_train, y_train)\<close>: the library trains the
  estimator with the combination \<open>g\<close> on the given partition. The invocation is an effect
  of the cell, so it leaves a record: the combination, the partition and the fitted
  estimator it produced. The fitted estimator returned here is the one whose score
  the loop body reads next.

  The library's training is taken as a function of the combination and the partition:
  the cells construct their estimators with \<open>random_state=1\<close> and \<open>warm_start=False\<close>.
  Whether the library reproduces a fit from one run of a cell to the next is a property
  of the library and lies outside this model.
\<close>

type_synonym ('p, 'm) fit_calls = "('p \<times> dataset \<times> 'm) list"

definition invoke_fit ::
  "('p \<Rightarrow> dataset \<Rightarrow> 'm) \<Rightarrow> 'p \<Rightarrow> dataset \<Rightarrow> ('p, 'm) fit_calls \<Rightarrow> 'm \<times> ('p, 'm) fit_calls" where
  "invoke_fit fit g d calls = (let m = fit g d in (m, calls @ [(g, d, m)]))"

section \<open>The bagging grid search\<close>

text \<open>
  The variables of the cell. \<open>best_score\<close> is bound before the loop. \<open>best_params\<close> is
  assigned inside the \<open>if\<close> only: the cell neither initialises nor deletes it, so at the
  start of the loop it has whatever binding the kernel holds, \<open>None\<close> standing for the
  unbound name. \<open>bag_fit_calls\<close> holds the fit invocations of the run, in order.
\<close>

record floor_var =
  best_score :: real

record 'p bag_run = floor_var +
  best_params :: "'p option"
  bag_fit_calls :: "('p, forest) fit_calls"

text \<open>
  The state after \<open>best_score=0.5\<close>, in a kernel whose binding of \<open>best_params\<close> is \<open>prior\<close>:
  \<open>Some g\<close> when an earlier run of the cell has left the combination \<open>g\<close> there.
\<close>

definition bag_entry :: "'p option \<Rightarrow> 'p bag_run" where
  "bag_entry prior = \<lparr>best_score = 0.5, best_params = prior, bag_fit_calls = []\<rparr>"

text \<open>The first run in a kernel: no earlier run has bound \<open>best_params\<close>.\<close>

definition bag_init :: "'p bag_run" where
  "bag_init = bag_entry None"

text \<open>One pass of the loop body: \<open>set_params(**g)\<close>, \<open>fit(X_train, y_train)\<close>, save if best.\<close>

definition bag_step :: "('p \<Rightarrow> dataset \<Rightarrow> forest) \<Rightarrow> 'p \<Rightarrow> 'p bag_run \<Rightarrow> 'p bag_run" where
  "bag_step fit g v =
     (case invoke_fit fit g X_train (bag_fit_calls v) of
        (bag, calls) \<Rightarrow>
          (let v' = v\<lparr>bag_fit_calls := calls\<rparr>
           in if oob_score bag > best_score v'
              then v'\<lparr>best_score := oob_score bag, best_params := Some g\<rparr>
              else v'))"

fun bag_loop :: "('p \<Rightarrow> dataset \<Rightarrow> forest) \<Rightarrow> 'p list \<Rightarrow> 'p bag_run \<Rightarrow> 'p bag_run" where
  "bag_loop fit [] v = v"
| "bag_loop fit (g # gs) v = bag_loop fit gs (bag_step fit g v)"

definition bag_sweep :: "('p \<Rightarrow> dataset \<Rightarrow> forest) \<Rightarrow> 'p list \<Rightarrow> 'p bag_run" where
  "bag_sweep fit grid = bag_loop fit grid bag_init"

text \<open>The two \<open>print\<close> lines after the loop; the second one reads \<open>best_params\<close>.\<close>

definition bag_report :: "'p bag_run \<Rightarrow> 'p line list \<times> error option" where
  "bag_report v =
     (case best_params v of
        None \<Rightarrow> ([OOB (best_score v)], Some (NameError ''best_params''))
      | Some g \<Rightarrow> ([OOB (best_score v), Best_parameters g], None))"

definition bag_cell :: "('p \<Rightarrow> dataset \<Rightarrow> forest) \<Rightarrow> 'p list \<Rightarrow> 'p line list \<times> error option" where
  "bag_cell fit grid = bag_report (bag_sweep fit grid)"

text \<open>The same loop and the same cell, run in a kernel that binds \<open>best_params\<close> to \<open>prior\<close>.\<close>

definition bag_sweep_from ::
  "'p option \<Rightarrow> ('p \<Rightarrow> dataset \<Rightarrow> forest) \<Rightarrow> 'p list \<Rightarrow> 'p bag_run" where
  "bag_sweep_from prior fit grid = bag_loop fit grid (bag_entry prior)"

definition bag_cell_from ::
  "'p option \<Rightarrow> ('p \<Rightarrow> dataset \<Rightarrow> forest) \<Rightarrow> 'p list \<Rightarrow> 'p line list \<times> error option" where
  "bag_cell_from prior fit grid = bag_report (bag_sweep_from prior fit grid)"

section \<open>The boosted-tree grid search\<close>

text \<open>
  The cell has the shape of the bagging one; the score it compares and keeps is
  \<open>boost.score(X_train, y_train)\<close>. \<open>boost_init\<close> is the first run in a kernel, where
  \<open>best_boost_params\<close> is unbound.
\<close>

record 'p boost_run =
  best_boost_score :: real
  best_boost_params :: "'p option"
  boost_fit_calls :: "('p, classifier) fit_calls"

definition boost_init :: "'p boost_run" where
  "boost_init = \<lparr>best_boost_score = 0.5, best_boost_params = None, boost_fit_calls = []\<rparr>"

definition boost_step ::
  "('p \<Rightarrow> dataset \<Rightarrow> classifier) \<Rightarrow> 'p \<Rightarrow> 'p boost_run \<Rightarrow> 'p boost_run" where
  "boost_step fit bg v =
     (case invoke_fit fit bg X_train (boost_fit_calls v) of
        (boost, calls) \<Rightarrow>
          (let v' = v\<lparr>boost_fit_calls := calls\<rparr>
           in if score boost X_train > best_boost_score v'
              then v'\<lparr>best_boost_score := score boost X_train, best_boost_params := Some bg\<rparr>
              else v'))"

fun boost_loop ::
  "('p \<Rightarrow> dataset \<Rightarrow> classifier) \<Rightarrow> 'p list \<Rightarrow> 'p boost_run \<Rightarrow> 'p boost_run" where
  "boost_loop fit [] v = v"
| "boost_loop fit (bg # bgs) v = boost_loop fit bgs (boost_step fit bg v)"

definition boost_sweep :: "('p \<Rightarrow> dataset \<Rightarrow> classifier) \<Rightarrow> 'p list \<Rightarrow> 'p boost_run" where
  "boost_sweep fit grid = boost_loop fit grid boost_init"

definition boost_report :: "'p boost_run \<Rightarrow> 'p line list \<times> error option" where
  "boost_report v =
     (case best_boost_params v of
        None \<Rightarrow> ([OOB (best_boost_score v)], Some (NameError ''best_boost_params''))
      | Some bg \<Rightarrow> ([OOB (best_boost_score v), Best_parameters bg], None))"

definition boost_cell ::
  "('p \<Rightarrow> dataset \<Rightarrow> classifier) \<Rightarrow> 'p list \<Rightarrow> 'p line list \<times> error option" where
  "boost_cell fit grid = boost_report (boost_sweep fit grid)"

section \<open>The random-forest grid search\<close>

text \<open>
  This cell binds \<open>best_score\<close> again before its loop and assigns the two names
  \<open>best_rfc_score\<close> and \<open>best_rfc_params\<close> inside the \<open>if\<close>; on the first run in a kernel,
  which \<open>rfc_init\<close> is, both are unbound until then.
\<close>

record 'p rfc_run = floor_var +
  best_rfc_score :: "real option"
  best_rfc_params :: "'p option"
  rfc_fit_calls :: "('p, forest) fit_calls"

definition rfc_init :: "'p rfc_run" where
  "rfc_init = \<lparr>best_score = 0.5, best_rfc_score = None, best_rfc_params = None,
                rfc_fit_calls = []\<rparr>"

definition rfc_step :: "('p \<Rightarrow> dataset \<Rightarrow> forest) \<Rightarrow> 'p \<Rightarrow> 'p rfc_run \<Rightarrow> 'p rfc_run" where
  "rfc_step fit rfg v =
     (case invoke_fit fit rfg X_train (rfc_fit_calls v) of
        (rfc, calls) \<Rightarrow>
          (let v' = v\<lparr>rfc_fit_calls := calls\<rparr>
           in if oob_score rfc > best_score v'
              then v'\<lparr>best_rfc_score := Some (oob_score rfc), best_rfc_params := Some rfg\<rparr>
              else v'))"

fun rfc_loop :: "('p \<Rightarrow> dataset \<Rightarrow> forest) \<Rightarrow> 'p list \<Rightarrow> 'p rfc_run \<Rightarrow> 'p rfc_run" where
  "rfc_loop fit [] v = v"
| "rfc_loop fit (rfg # rfgs) v = rfc_loop fit rfgs (rfc_step fit rfg v)"

definition rfc_sweep :: "('p \<Rightarrow> dataset \<Rightarrow> forest) \<Rightarrow> 'p list \<Rightarrow> 'p rfc_run" where
  "rfc_sweep fit grid = rfc_loop fit grid rfc_init"

definition rfc_report :: "'p rfc_run \<Rightarrow> 'p line list \<times> error option" where
  "rfc_report v =
     (case best_rfc_score v of
        None \<Rightarrow> ([], Some (NameError ''best_rfc_score''))
      | Some s \<Rightarrow>
          (case best_rfc_params v of
             None \<Rightarrow> ([OOB s], Some (NameError ''best_rfc_params''))
           | Some rfg \<Rightarrow> ([OOB s, Best_parameters rfg], None)))"

definition rfc_cell :: "('p \<Rightarrow> dataset \<Rightarrow> forest) \<Rightarrow> 'p list \<Rightarrow> 'p line list \<times> error option" where
  "rfc_cell fit grid = rfc_report (rfc_sweep fit grid)"

section \<open>The submission file of the XGBoost notebook\<close>

text \<open>
  \<open>campaign_test\<close> is read with \<open>index_col="Id"\<close>: a frame is the list of its records, each
  with its identifier. \<open>predict\<close> returns one label per record, in row order. The last cell
  writes the header and then, for every position \<open>i\<close> of the prediction array, the row
  \<open>[i, y_REAL_test[i]]\<close>; a row is the list of its fields, which the CSV writer joins
  with commas.
\<close>

type_synonym 'x frame = "(int \<times> 'x) list"

datatype field = Text string | Number int

definition predict :: "('x \<Rightarrow> int) \<Rightarrow> 'x frame \<Rightarrow> int list" where
  "predict xgb_model frame = map (\<lambda>(i, x). xgb_model x) frame"

definition write_submission :: "int list \<Rightarrow> field list list" where
  "write_submission y_REAL_test =
     [Text ''Id'', Text ''subscription''] #
     map (\<lambda>i. [Number (int i), Number (y_REAL_test ! i)]) [0..<length y_REAL_test]"

definition submission_cell :: "('x \<Rightarrow> int) \<Rightarrow> 'x frame \<Rightarrow> field list list" where
  "submission_cell xgb_model campaign_test = write_submission (predict xgb_model campaign_test)"

text \<open>
  The specification's reading of the same file, for comparison: one row per prediction,
  keyed by the identifier of the test-set record the prediction belongs to.
\<close>

definition rows_keyed_by_record_id :: "('x \<Rightarrow> int) \<Rightarrow> 'x frame \<Rightarrow> field list list" where
  "rows_keyed_by_record_id xgb_model campaign_test =
     [Text ''Id'', Text ''subscription''] #
     map (\<lambda>(i, x). [Number i, Number (xgb_model x)]) campaign_test"

section \<open>Sample inputs\<close>

text \<open>
  Stand-ins for the library's fit, used to run the cells on concrete grids: a forest whose
  out-of-bag score is looked up in a table (training accuracy 1, as a fully grown forest
  has), and a boosted classifier whose training and held-out accuracies are looked up in a
  table. Combinations are dictionaries, written as association lists.
\<close>

type_synonym params = "(string \<times> nat) list"

definition table_forest :: "(params \<times> real) list \<Rightarrow> params \<Rightarrow> dataset \<Rightarrow> forest" where
  "table_forest tab g d =
     \<lparr>score = (\<lambda>_. 1), oob_score = (case map_of tab g of Some s \<Rightarrow> s | None \<Rightarrow> 0)\<rparr>"

definition table_boost ::
  "(params \<times> real \<times> real) list \<Rightarrow> params \<Rightarrow> dataset \<Rightarrow> classifier" where
  "table_boost tab g d =
     (case map_of tab g of
        Some (train_acc, heldout_acc) \<Rightarrow>
          \<lparr>score = (\<lambda>part. if part = X_train then train_acc else heldout_acc)\<rparr>
      | None \<Rightarrow> \<lparr>score = (\<lambda>_. 0)\<rparr>)"

definition leaf1 :: params where "leaf1 = [(''min_samples_leaf'', 1)]"

definition leaf3 :: params where "leaf3 = [(''min_samples_leaf'', 3)]"

definition leaf5 :: params where "leaf5 = [(''min_samples_leaf'', 5)]"

section \<open>Evaluating the cells on sample inputs\<close>

lemma leaf_distinct [simp]:
  "leaf1 \<noteq> leaf3" "leaf3 \<noteq> leaf1" "leaf1 \<noteq> leaf5" "leaf5 \<noteq> leaf1" "leaf3 \<noteq> leaf5" "leaf5 \<noteq> leaf3"
  by (simp_all add: leaf1_def leaf3_def leaf5_def)

lemmas cell_defs = bag_cell_def bag_sweep_def bag_report_def bag_step_def bag_init_def
  bag_cell_from_def bag_sweep_from_def bag_entry_def invoke_fit_def
  rfc_cell_def rfc_sweep_def rfc_report_def rfc_step_def rfc_init_def
  boost_cell_def boost_sweep_def boost_report_def boost_step_def boost_init_def
  table_forest_def table_boost_def Let_def

section \<open>The bagging loop\<close>

subsection \<open>Invocations of fit\<close>

lemma bag_loop_fit_calls:
  "bag_fit_calls (bag_loop fit grid v) =
   bag_fit_calls v @ map (\<lambda>g. (g, X_train, fit g X_train)) grid"
  by (induction grid arbitrary: v) (simp_all add: bag_step_def invoke_fit_def Let_def)

subsection \<open>One iteration\<close>

lemma bag_step_improves:
  "best_score v < oob_score (fit g X_train) \<Longrightarrow>
   best_score (bag_step fit g v) = oob_score (fit g X_train) \<and>
   best_params (bag_step fit g v) = Some g"
  by (simp add: bag_step_def invoke_fit_def Let_def)

lemma bag_step_keeps:
  "oob_score (fit g X_train) \<le> best_score v \<Longrightarrow>
   best_score (bag_step fit g v) = best_score v \<and>
   best_params (bag_step fit g v) = best_params v"
  by (simp add: bag_step_def invoke_fit_def Let_def)

lemma bag_step_monotone: "best_score v \<le> best_score (bag_step fit g v)"
  by (simp add: bag_step_def invoke_fit_def Let_def)

subsection \<open>The whole loop\<close>

lemma bag_loop_no_improvement:
  "\<forall>g\<in>set gs. oob_score (fit g X_train) \<le> best_score v \<Longrightarrow>
   bag_loop fit gs v =
     v\<lparr>bag_fit_calls := bag_fit_calls v @ map (\<lambda>g. (g, X_train, fit g X_train)) gs\<rparr>"
  by (induction gs arbitrary: v) (simp_all add: bag_step_def invoke_fit_def Let_def)

lemma bag_loop_winner:
  "\<exists>g\<in>set gs. best_score v < oob_score (fit g X_train) \<Longrightarrow>
   \<exists>pre w post. gs = pre @ w # post \<and>
     best_params (bag_loop fit gs v) = Some w \<and>
     best_score (bag_loop fit gs v) = oob_score (fit w X_train) \<and>
     best_score v < oob_score (fit w X_train) \<and>
     (\<forall>h\<in>set pre. oob_score (fit h X_train) < oob_score (fit w X_train)) \<and>
     (\<forall>h\<in>set post. oob_score (fit h X_train) \<le> oob_score (fit w X_train))"
proof (induction gs arbitrary: v)
  case Nil
  then show ?case by simp
next
  case (Cons g gs)
  let ?o = "\<lambda>g. oob_score (fit g X_train)"
  let ?v1 = "bag_step fit g v"
  show ?case
  proof (cases "best_score v < ?o g")
    case True
    then have s1: "best_score ?v1 = ?o g" and p1: "best_params ?v1 = Some g"
      by (simp_all add: bag_step_improves)
    show ?thesis
    proof (cases "\<exists>h\<in>set gs. ?o g < ?o h")
      case True
      then have "\<exists>h\<in>set gs. best_score ?v1 < ?o h" using s1 by simp
      from Cons.IH [OF this] obtain pre w post where
        d: "gs = pre @ w # post" and
        r: "best_params (bag_loop fit gs ?v1) = Some w"
           "best_score (bag_loop fit gs ?v1) = ?o w" and
        lt: "best_score ?v1 < ?o w" and
        b: "\<forall>h\<in>set pre. ?o h < ?o w" and a: "\<forall>h\<in>set post. ?o h \<le> ?o w"
        by blast
      have "g # gs = (g # pre) @ w # post" using d by simp
      moreover have "\<forall>h\<in>set (g # pre). ?o h < ?o w" using b lt s1 by simp
      moreover have "best_score v < ?o w" using lt s1 \<open>best_score v < ?o g\<close> by simp
      ultimately show ?thesis using r a by (metis bag_loop.simps(2))
    next
      case False
      then have "\<forall>h\<in>set gs. ?o h \<le> best_score ?v1" using s1 by (simp add: not_less)
      then have "bag_loop fit gs ?v1 =
          ?v1\<lparr>bag_fit_calls := bag_fit_calls ?v1 @ map (\<lambda>g. (g, X_train, fit g X_train)) gs\<rparr>"
        by (rule bag_loop_no_improvement)
      then have "best_params (bag_loop fit (g # gs) v) = Some g"
        "best_score (bag_loop fit (g # gs) v) = ?o g"
        using s1 p1 by simp_all
      moreover have "g # gs = [] @ g # gs" by simp
      moreover have "\<forall>h\<in>set gs. ?o h \<le> ?o g" using False by (simp add: not_less)
      ultimately show ?thesis using True by (metis empty_iff list.set(1))
    qed
  next
    case False
    then have k: "best_score ?v1 = best_score v"
      using bag_step_keeps [of fit g v] by simp
    from Cons.prems False have "\<exists>h\<in>set gs. best_score ?v1 < ?o h" using k by auto
    from Cons.IH [OF this] obtain pre w post where
      d: "gs = pre @ w # post" and
      r: "best_params (bag_loop fit gs ?v1) = Some w"
         "best_score (bag_loop fit gs ?v1) = ?o w" and
      lt: "best_score ?v1 < ?o w" and
      b: "\<forall>h\<in>set pre. ?o h < ?o w" and a: "\<forall>h\<in>set post. ?o h \<le> ?o w"
      by blast
    have "g # gs = (g # pre) @ w # post" using d by simp
    moreover have "\<forall>h\<in>set (g # pre). ?o h < ?o w" using b lt k False by simp
    moreover have "best_score v < ?o w" using lt k by simp
    ultimately show ?thesis using r a by (metis bag_loop.simps(2))
  qed
qed

lemma Max_insert_max:
  fixes a :: "'a::linorder"
  shows "finite S \<Longrightarrow> Max (insert (max a b) S) = max a (Max (insert b S))"
  by (cases "S = {}") (simp_all add: max.assoc)

lemma bag_loop_best_score:
  "best_score (bag_loop fit gs v) =
   Max (insert (best_score v) ((\<lambda>g. oob_score (fit g X_train)) ` set gs))"
proof (induction gs arbitrary: v)
  case Nil
  then show ?case by simp
next
  case (Cons g gs)
  have "best_score (bag_step fit g v) = max (best_score v) (oob_score (fit g X_train))"
    by (simp add: bag_step_def invoke_fit_def Let_def max_def)
  then show ?case using Cons.IH [of "bag_step fit g v"]
    by (simp add: Max_insert_max)
qed

lemma bag_sweep_from_unset:
  assumes "\<forall>g\<in>set grid. oob_score (fit g X_train) \<le> 0.5"
  shows "bag_sweep_from prior fit grid =
         (bag_entry prior)\<lparr>bag_fit_calls := map (\<lambda>g. (g, X_train, fit g X_train)) grid\<rparr>"
proof -
  have "\<forall>g\<in>set grid. oob_score (fit g X_train) \<le> best_score (bag_entry prior)"
    using assms by (simp add: bag_entry_def)
  then have "bag_sweep_from prior fit grid =
      (bag_entry prior)\<lparr>bag_fit_calls :=
         bag_fit_calls (bag_entry prior) @ map (\<lambda>g. (g, X_train, fit g X_train)) grid\<rparr>"
    unfolding bag_sweep_from_def by (rule bag_loop_no_improvement)
  then show ?thesis by (simp add: bag_entry_def)
qed

lemma bag_sweep_unset:
  assumes "\<forall>g\<in>set grid. oob_score (fit g X_train) \<le> 0.5"
  shows "bag_sweep fit grid =
         bag_init\<lparr>bag_fit_calls := map (\<lambda>g. (g, X_train, fit g X_train)) grid\<rparr>"
  using bag_sweep_from_unset [of grid fit None] assms
  by (simp add: bag_sweep_def bag_sweep_from_def bag_init_def)

lemma bag_sweep_winner_exists:
  assumes "\<exists>g\<in>set grid. 0.5 < oob_score (fit g X_train)"
  shows "\<exists>w. best_params (bag_sweep fit grid) = Some w"
proof -
  have "\<exists>g\<in>set grid. best_score (bag_init :: 'a bag_run) < oob_score (fit g X_train)"
    using assms by (simp add: bag_init_def bag_entry_def)
  from bag_loop_winner [of grid bag_init fit] this show ?thesis
    unfolding bag_sweep_def by blast
qed

lemma bag_sweep_winner:
  assumes "best_params (bag_sweep fit grid) = Some w"
  shows "\<exists>pre post. grid = pre @ w # post \<and>
           best_score (bag_sweep fit grid) = oob_score (fit w X_train) \<and>
           0.5 < oob_score (fit w X_train) \<and>
           (\<forall>h\<in>set pre. oob_score (fit h X_train) < oob_score (fit w X_train)) \<and>
           (\<forall>h\<in>set post. oob_score (fit h X_train) \<le> oob_score (fit w X_train))"
proof (cases "\<exists>g\<in>set grid. best_score (bag_init :: 'a bag_run) < oob_score (fit g X_train)")
  case True
  from bag_loop_winner [of grid bag_init fit] True assms show ?thesis
    unfolding bag_sweep_def by (auto simp add: bag_init_def bag_entry_def)
next
  case False
  then have "\<forall>g\<in>set grid. oob_score (fit g X_train) \<le> best_score (bag_init :: 'a bag_run)"
    by (simp add: not_less)
  then have "bag_sweep fit grid =
      bag_init\<lparr>bag_fit_calls :=
        bag_fit_calls bag_init @ map (\<lambda>g. (g, X_train, fit g X_train)) grid\<rparr>"
    unfolding bag_sweep_def by (rule bag_loop_no_improvement)
  then have "best_params (bag_sweep fit grid) = None" by (simp add: bag_init_def bag_entry_def)
  then show ?thesis using assms by simp
qed

lemma bag_sweep_winner_maximal:
  assumes "best_params (bag_sweep fit grid) = Some w"
  shows "w \<in> set grid \<and> best_score (bag_sweep fit grid) = oob_score (fit w X_train) \<and>
         (\<forall>k\<in>set grid. oob_score (fit k X_train) \<le> oob_score (fit w X_train))"
proof -
  from bag_sweep_winner [OF assms] obtain pre post where
    d: "grid = pre @ w # post" and s: "best_score (bag_sweep fit grid) = oob_score (fit w X_train)" and
    b: "\<forall>h\<in>set pre. oob_score (fit h X_train) < oob_score (fit w X_train)" and
    a: "\<forall>h\<in>set post. oob_score (fit h X_train) \<le> oob_score (fit w X_train)"
    by blast
  have "\<forall>k\<in>set grid. oob_score (fit k X_train) \<le> oob_score (fit w X_train)"
    using d a b by (auto simp add: less_imp_le)
  then show ?thesis using d s by simp
qed

lemma bag_sweep_best_score:
  "best_score (bag_sweep fit grid) =
   Max (insert 0.5 ((\<lambda>g. oob_score (fit g X_train)) ` set grid))"
  by (simp add: bag_sweep_def bag_loop_best_score bag_init_def bag_entry_def)

subsection \<open>Every combination is fitted once\<close>

text \<open>
  Claim C5. The bagging sweep over a grid of N combinations invokes fit once for each
  combination, in grid order, on the training partition: the invocations of the run are,
  one for one, the combinations of the grid, each with the estimator that fitting this
  combination produced. So there are exactly N of them, none skipped and none repeated,
  and the best score the sweep ends with is the floor or the highest out-of-bag score
  among the estimators these invocations produced.
\<close>

theorem bag_sweep_fits_each_once:
  "bag_fit_calls (bag_sweep fit grid) = map (\<lambda>g. (g, X_train, fit g X_train)) grid \<and>
   map fst (bag_fit_calls (bag_sweep fit grid)) = grid \<and>
   length (bag_fit_calls (bag_sweep fit grid)) = length grid \<and>
   best_score (bag_sweep fit grid) =
     Max (insert 0.5 ((\<lambda>(g, d, bag). oob_score bag) ` set (bag_fit_calls (bag_sweep fit grid))))"
proof -
  have calls: "bag_fit_calls (bag_sweep fit grid) = map (\<lambda>g. (g, X_train, fit g X_train)) grid"
    by (simp add: bag_sweep_def bag_loop_fit_calls bag_init_def bag_entry_def)
  have "(\<lambda>(g, d, bag). oob_score bag) ` set (map (\<lambda>g. (g, X_train, fit g X_train)) grid) =
        (\<lambda>g. oob_score (fit g X_train)) ` set grid"
    by (simp add: image_image)
  then show ?thesis
    using calls bag_sweep_best_score [of fit grid] by (simp add: comp_def)
qed

text \<open>
  When some score exceeds the floor, the bagging loop ends with the highest score of the
  grid and with a combination that produced it.
\<close>

lemma bag_sweep_returns_maximum:
  assumes "\<exists>g\<in>set grid. 0.5 < oob_score (fit g X_train)"
  shows "best_score (bag_sweep fit grid) = Max ((\<lambda>g. oob_score (fit g X_train)) ` set grid) \<and>
         (\<exists>w\<in>set grid. best_params (bag_sweep fit grid) = Some w \<and>
            oob_score (fit w X_train) = Max ((\<lambda>g. oob_score (fit g X_train)) ` set grid))"
proof -
  from bag_sweep_winner_exists [of grid fit] assms obtain w where
    w: "best_params (bag_sweep fit grid) = Some w" by blast
  note m = bag_sweep_winner_maximal [OF w]
  have "Max ((\<lambda>g. oob_score (fit g X_train)) ` set grid) = oob_score (fit w X_train)"
    using m by (intro Max_eqI) auto
  then show ?thesis using m w by simp
qed

subsection \<open>No score above the floor\<close>

text \<open>
  Claim C2, as stated, fails. On a grid of one combination scoring 0.3 the cell gives no
  signal that there is no winner. On a first run it prints 0.5 on its \<open>OOB\<close> line, a score
  no fit produced, before the read of the unbound \<open>best_params\<close> stops it. In a kernel where
  an earlier run has left a combination in \<open>best_params\<close>, it prints 0.5 and that
  combination, which is not in the grid, and raises nothing.
\<close>

theorem bag_cell_no_winner_counterexample:
  "oob_score (table_forest [(leaf1, 0.3)] leaf1 X_train) = 0.3 \<and>
   bag_cell (table_forest [(leaf1, 0.3)]) [leaf1] =
     ([OOB 0.5], Some (NameError ''best_params'')) \<and>
   leaf3 \<notin> set [leaf1] \<and>
   bag_cell_from (Some leaf3) (table_forest [(leaf1, 0.3)]) [leaf1] =
     ([OOB 0.5, Best_parameters leaf3], None)"
  by (simp add: cell_defs)

text \<open>
  Claim C2, amended. When no combination of the bagging sweep scores strictly above the
  floor 0.5, the loop assigns neither variable: \<open>best_score\<close> is still the floor and
  \<open>best_params\<close> has the binding it had before the sweep. The cell then prints the floor on
  its \<open>OOB\<close> line and, when \<open>best_params\<close> was unbound, ends with the NameError raised by
  reading it; when an earlier run had bound it, the cell prints that earlier combination.
\<close>

theorem bag_sweep_no_winner:
  assumes "\<forall>g\<in>set grid. oob_score (fit g X_train) \<le> 0.5"
  shows "best_score (bag_sweep_from prior fit grid) = 0.5 \<and>
         best_params (bag_sweep_from prior fit grid) = prior \<and>
         bag_cell_from prior fit grid =
           (case prior of
              None \<Rightarrow> ([OOB 0.5], Some (NameError ''best_params''))
            | Some g \<Rightarrow> ([OOB 0.5, Best_parameters g], None))"
  using bag_sweep_from_unset [of grid fit prior] assms
  by (simp add: bag_cell_from_def bag_report_def bag_entry_def split: option.splits)

text \<open>
  The example of the specification, one combination scoring 0.3 against the floor 0.5,
  on a first run and after a run that left another combination behind.
\<close>

theorem bag_sweep_no_winner_witness:
  "oob_score (table_forest [(leaf1, 0.3)] leaf1 X_train) \<le> 0.5 \<and>
   best_params (bag_sweep_from None (table_forest [(leaf1, 0.3)]) [leaf1]) = None \<and>
   bag_cell_from None (table_forest [(leaf1, 0.3)]) [leaf1] =
     ([OOB 0.5], Some (NameError ''best_params'')) \<and>
   best_params (bag_sweep_from (Some leaf3) (table_forest [(leaf1, 0.3)]) [leaf1]) = Some leaf3 \<and>
   bag_cell_from (Some leaf3) (table_forest [(leaf1, 0.3)]) [leaf1] =
     ([OOB 0.5, Best_parameters leaf3], None)"
proof -
  have h: "oob_score (table_forest [(leaf1, 0.3)] leaf1 X_train) \<le> 0.5"
    by (simp add: table_forest_def)
  then have a: "\<forall>g\<in>set [leaf1]. oob_score (table_forest [(leaf1, 0.3)] g X_train) \<le> 0.5"
    by simp
  from bag_sweep_no_winner [of "[leaf1]" "table_forest [(leaf1, 0.3)]" None]
    bag_sweep_no_winner [of "[leaf1]" "table_forest [(leaf1, 0.3)]" "Some leaf3"] a h
  show ?thesis by simp
qed

subsection \<open>Ties\<close>

text \<open>
  Claim C4. The improvement test of the bagging loop is strict: an iteration whose score
  does not exceed the current best score leaves the best pair as it was. Hence the
  combination the sweep ends with is the first one of the grid to reach its score: every
  combination before it scored strictly less, every one after it scored at most as much.
\<close>

theorem bag_first_seen_wins:
  "(oob_score (fit g X_train) \<le> best_score v \<longrightarrow>
      best_score (bag_step fit g v) = best_score v \<and>
      best_params (bag_step fit g v) = best_params v) \<and>
   (best_params (bag_sweep fit grid) = Some w \<longrightarrow>
      (\<exists>pre post. grid = pre @ w # post \<and>
         (\<forall>h\<in>set pre. oob_score (fit h X_train) < oob_score (fit w X_train)) \<and>
         (\<forall>h\<in>set post. oob_score (fit h X_train) \<le> oob_score (fit w X_train))))"
  using bag_step_keeps [of fit g v] bag_sweep_winner [of fit grid w] by blast

text \<open>
  Three combinations scoring 0.8, 0.9 and 0.9: the second one is kept, the third does not
  replace it.
\<close>

theorem bag_first_seen_wins_witness:
  "oob_score (table_forest [(leaf1, 0.8), (leaf3, 0.9), (leaf5, 0.9)] leaf5 X_train)
     \<le> best_score (bag_sweep (table_forest [(leaf1, 0.8), (leaf3, 0.9), (leaf5, 0.9)]) [leaf1, leaf3]) \<and>
   best_params (bag_step (table_forest [(leaf1, 0.8), (leaf3, 0.9), (leaf5, 0.9)]) leaf5
     (bag_sweep (table_forest [(leaf1, 0.8), (leaf3, 0.9), (leaf5, 0.9)]) [leaf1, leaf3])) = Some leaf3 \<and>
   best_params (bag_sweep (table_forest [(leaf1, 0.8), (leaf3, 0.9), (leaf5, 0.9)])
     [leaf1, leaf3, leaf5]) = Some leaf3 \<and>
   (\<exists>pre post. [leaf1, leaf3, leaf5] = pre @ leaf3 # post \<and>
      (\<forall>h\<in>set pre. oob_score (table_forest [(leaf1, 0.8), (leaf3, 0.9), (leaf5, 0.9)] h X_train)
         < oob_score (table_forest [(leaf1, 0.8), (leaf3, 0.9), (leaf5, 0.9)] leaf3 X_train)) \<and>
      (\<forall>h\<in>set post. oob_score (table_forest [(leaf1, 0.8), (leaf3, 0.9), (leaf5, 0.9)] h X_train)
         \<le> oob_score (table_forest [(leaf1, 0.8), (leaf3, 0.9), (leaf5, 0.9)] leaf3 X_train)))"
proof -
  let ?T = "table_forest [(leaf1, 0.8), (leaf3, 0.9), (leaf5, 0.9)]"
  have h1: "oob_score (?T leaf5 X_train) \<le> best_score (bag_sweep ?T [leaf1, leaf3])"
    by (simp add: cell_defs)
  have h2: "best_params (bag_sweep ?T [leaf1, leaf3]) = Some leaf3"
    by (simp add: cell_defs)
  have h3: "best_params (bag_sweep ?T [leaf1, leaf3, leaf5]) = Some leaf3"
    by (simp add: cell_defs)
  from bag_first_seen_wins [of ?T leaf5 "bag_sweep ?T [leaf1, leaf3]" "[leaf1, leaf3, leaf5]" leaf3]
    h1 h2 h3 show ?thesis by simp
qed

subsection \<open>Enumeration order\<close>

text \<open>
  Claim C7, as stated, fails: with two combinations tied at 0.8, the sweep keeps whichever
  comes first, so the two orders of the grid report different combinations.
\<close>

theorem bag_sweep_order_counterexample:
  "mset [leaf3, leaf1] = mset [leaf1, leaf3] \<and>
   bag_cell (table_forest [(leaf1, 0.8), (leaf3, 0.8)]) [leaf1, leaf3] =
     ([OOB 0.8, Best_parameters leaf1], None) \<and>
   bag_cell (table_forest [(leaf1, 0.8), (leaf3, 0.8)]) [leaf3, leaf1] =
     ([OOB 0.8, Best_parameters leaf3], None) \<and>
   bag_cell (table_forest [(leaf1, 0.8), (leaf3, 0.8)]) [leaf3, leaf1] \<noteq>
   bag_cell (table_forest [(leaf1, 0.8), (leaf3, 0.8)]) [leaf1, leaf3]"
  by (simp add: cell_defs)

text \<open>
  Claim C7, amended. For every permutation of the grid the bagging sweep ends with the
  same best score; it ends with the same best combination, and prints the same lines,
  whenever the highest score of the grid is attained by one combination only.
\<close>

theorem bag_sweep_permutation:
  assumes "mset grid' = mset grid"
  shows "best_score (bag_sweep fit grid') = best_score (bag_sweep fit grid) \<and>
         ((\<forall>g\<in>set grid. \<forall>h\<in>set grid.
             oob_score (fit g X_train) = oob_score (fit h X_train) \<and>
             (\<forall>k\<in>set grid. oob_score (fit k X_train) \<le> oob_score (fit g X_train)) \<longrightarrow> g = h) \<longrightarrow>
          best_params (bag_sweep fit grid') = best_params (bag_sweep fit grid) \<and>
          bag_cell fit grid' = bag_cell fit grid)"
proof -
  have st: "set grid' = set grid" using assms by (rule mset_eq_setD)
  have sc: "best_score (bag_sweep fit grid') = best_score (bag_sweep fit grid)"
    by (simp add: bag_sweep_best_score st)
  have pc: "best_params (bag_sweep fit grid') = best_params (bag_sweep fit grid)"
    if nt: "\<forall>g\<in>set grid. \<forall>h\<in>set grid.
             oob_score (fit g X_train) = oob_score (fit h X_train) \<and>
             (\<forall>k\<in>set grid. oob_score (fit k X_train) \<le> oob_score (fit g X_train)) \<longrightarrow> g = h"
  proof (cases "\<exists>g\<in>set grid. 0.5 < oob_score (fit g X_train)")
    case True
    then have True': "\<exists>g\<in>set grid'. 0.5 < oob_score (fit g X_train)" using st by simp
    from bag_sweep_winner_exists [of grid fit] True obtain w where
      w: "best_params (bag_sweep fit grid) = Some w" by blast
    from bag_sweep_winner_exists [of grid' fit] True' obtain w' where
      w': "best_params (bag_sweep fit grid') = Some w'" by blast
    note m = bag_sweep_winner_maximal [OF w]
    note m' = bag_sweep_winner_maximal [OF w', unfolded st]
    have "oob_score (fit w X_train) = oob_score (fit w' X_train)"
      using m m' by (simp add: order_antisym)
    then have "w = w'" using nt m m' by blast
    then show ?thesis using w w' by simp
  next
    case False
    then have n: "\<forall>g\<in>set grid. oob_score (fit g X_train) \<le> 0.5" by (simp add: not_less)
    then have n': "\<forall>g\<in>set grid'. oob_score (fit g X_train) \<le> 0.5" using st by simp
    show ?thesis
      using bag_sweep_unset [of grid fit] bag_sweep_unset [of grid' fit] n n' by simp
  qed
  have "bag_cell fit grid' = bag_cell fit grid"
    if "best_params (bag_sweep fit grid') = best_params (bag_sweep fit grid)"
    using that sc by (simp add: bag_cell_def bag_report_def split: option.splits)
  then show ?thesis using sc pc by blast
qed

theorem bag_sweep_permutation_witness:
  "mset [leaf3, leaf1] = mset [leaf1, leaf3] \<and>
   oob_score (table_forest [(leaf1, 0.8), (leaf3, 0.9)] leaf1 X_train) \<noteq>
   oob_score (table_forest [(leaf1, 0.8), (leaf3, 0.9)] leaf3 X_train) \<and>
   bag_cell (table_forest [(leaf1, 0.8), (leaf3, 0.9)]) [leaf3, leaf1] =
   bag_cell (table_forest [(leaf1, 0.8), (leaf3, 0.9)]) [leaf1, leaf3] \<and>
   bag_cell (table_forest [(leaf1, 0.8), (leaf3, 0.9)]) [leaf3, leaf1] =
     ([OOB 0.9, Best_parameters leaf3], None)"
proof -
  let ?T = "table_forest [(leaf1, 0.8), (leaf3, 0.9)]"
  have p: "mset [leaf3, leaf1] = mset [leaf1, leaf3]" by simp
  have d: "oob_score (?T leaf1 X_train) \<noteq> oob_score (?T leaf3 X_train)"
    by (simp add: table_forest_def)
  then have nt: "\<forall>g\<in>set [leaf1, leaf3]. \<forall>h\<in>set [leaf1, leaf3].
      oob_score (?T g X_train) = oob_score (?T h X_train) \<and>
      (\<forall>k\<in>set [leaf1, leaf3]. oob_score (?T k X_train) \<le> oob_score (?T g X_train)) \<longrightarrow> g = h"
    by simp
  have v: "bag_cell ?T [leaf3, leaf1] = ([OOB 0.9, Best_parameters leaf3], None)"
    by (simp add: cell_defs)
  from bag_sweep_permutation [of "[leaf3, leaf1]" "[leaf1, leaf3]" ?T] p nt d v
  show ?thesis by blast
qed

section \<open>The random-forest loop\<close>

lemma find_snoc:
  "find P (xs @ [x]) = (case find P xs of None \<Rightarrow> (if P x then Some x else None) | Some y \<Rightarrow> Some y)"
  by (induction xs) simp_all

lemma rfc_loop_last_above:
  "best_score (rfc_loop fit gs v) = best_score v \<and>
   best_rfc_params (rfc_loop fit gs v) =
     (case find (\<lambda>g. best_score v < oob_score (fit g X_train)) (rev gs) of
        None \<Rightarrow> best_rfc_params v | Some g \<Rightarrow> Some g) \<and>
   best_rfc_score (rfc_loop fit gs v) =
     (case find (\<lambda>g. best_score v < oob_score (fit g X_train)) (rev gs) of
        None \<Rightarrow> best_rfc_score v | Some g \<Rightarrow> Some (oob_score (fit g X_train)))"
proof (induction gs arbitrary: v)
  case Nil
  then show ?case by simp
next
  case (Cons g gs)
  let ?v1 = "rfc_step fit g v"
  have s: "best_score ?v1 = best_score v"
    by (simp add: rfc_step_def invoke_fit_def Let_def)
  have p: "best_rfc_params ?v1 =
      (if best_score v < oob_score (fit g X_train) then Some g else best_rfc_params v)"
    by (simp add: rfc_step_def invoke_fit_def Let_def)
  have q: "best_rfc_score ?v1 =
      (if best_score v < oob_score (fit g X_train) then Some (oob_score (fit g X_train))
       else best_rfc_score v)"
    by (simp add: rfc_step_def invoke_fit_def Let_def)
  show ?case using Cons.IH [of ?v1]
    by (simp add: s p q find_snoc split: option.splits)
qed

text \<open>
  Claim C10. In the random-forest sweep the threshold \<open>best_score\<close> is still 0.5 after the
  loop, whatever the scores were; \<open>best_rfc_params\<close> and \<open>best_rfc_score\<close> are those of the
  last combination in grid order scoring strictly above 0.5, and the cell prints that pair.
  When no combination scores above 0.5 both names are unbound and the cell ends with the
  NameError raised by its first \<open>print\<close>.
\<close>

theorem rfc_sweep_reports_last_above_floor:
  "best_score (rfc_sweep fit grid) = 0.5 \<and>
   best_rfc_params (rfc_sweep fit grid) =
     find (\<lambda>g. 0.5 < oob_score (fit g X_train)) (rev grid) \<and>
   best_rfc_score (rfc_sweep fit grid) =
     map_option (\<lambda>g. oob_score (fit g X_train))
       (find (\<lambda>g. 0.5 < oob_score (fit g X_train)) (rev grid)) \<and>
   rfc_cell fit grid =
     (case find (\<lambda>g. 0.5 < oob_score (fit g X_train)) (rev grid) of
        None \<Rightarrow> ([], Some (NameError ''best_rfc_score''))
      | Some g \<Rightarrow> ([OOB (oob_score (fit g X_train)), Best_parameters g], None))"
proof -
  have i: "best_score (rfc_init :: 'a rfc_run) = 0.5"
    "best_rfc_params (rfc_init :: 'a rfc_run) = None"
    "best_rfc_score (rfc_init :: 'a rfc_run) = None"
    by (simp_all add: rfc_init_def)
  note l = rfc_loop_last_above [of fit grid rfc_init, unfolded i]
  show ?thesis
    using l by (simp add: rfc_sweep_def rfc_cell_def rfc_report_def split: option.splits)
qed

text \<open>
  Claim C1 does not hold of the random-forest cell. On a grid of two combinations with
  out-of-bag scores 0.9 and 0.8 it reports the second combination with 0.8, although the
  first one scored 0.9; the bagging cell reports the first one with 0.9 on the same input.
\<close>

theorem rfc_cell_reports_last_not_best:
  "rfc_cell (table_forest [(leaf1, 0.9), (leaf3, 0.8)]) [leaf1, leaf3] =
     ([OOB 0.8, Best_parameters leaf3], None) \<and>
   bag_cell (table_forest [(leaf1, 0.9), (leaf3, 0.8)]) [leaf1, leaf3] =
     ([OOB 0.9, Best_parameters leaf1], None)"
  by (simp add: cell_defs)

text \<open>
  Claim C3 does not hold of the random-forest cell. The retained score \<open>best_rfc_score\<close>
  is unbound before the loop, not initialised to the floor, and on the scores 0.9 and 0.8
  it goes down from 0.9 to 0.8 in the second iteration. The bagging loop keeps the
  property: see \<open>bag_step_monotone\<close>.
\<close>

theorem rfc_retained_score_drops:
  "best_rfc_score (rfc_init :: params rfc_run) = None \<and>
   best_rfc_score (rfc_step (table_forest [(leaf1, 0.9), (leaf3, 0.8)]) leaf1 rfc_init) = Some 0.9 \<and>
   best_rfc_score (rfc_step (table_forest [(leaf1, 0.9), (leaf3, 0.8)]) leaf3
     (rfc_step (table_forest [(leaf1, 0.9), (leaf3, 0.8)]) leaf1 rfc_init)) = Some 0.8"
  by (simp add: cell_defs)

section \<open>The boosted-tree loop\<close>

text \<open>
  The boosted-tree loop reads nothing but the training-set accuracy of each fit: two
  families of fits that agree on it, whatever their accuracies on the held-out partitions,
  take the loop to the same best score and the same best combination.
\<close>

lemma boost_loop_reads_training_accuracy:
  "\<forall>bg\<in>set bgs. score (fit1 bg X_train) X_train = score (fit2 bg X_train) X_train \<Longrightarrow>
   best_boost_score v1 = best_boost_score v2 \<Longrightarrow>
   best_boost_params v1 = best_boost_params v2 \<Longrightarrow>
   best_boost_score (boost_loop fit1 bgs v1) = best_boost_score (boost_loop fit2 bgs v2) \<and>
   best_boost_params (boost_loop fit1 bgs v1) = best_boost_params (boost_loop fit2 bgs v2)"
proof (induction bgs arbitrary: v1 v2)
  case Nil
  then show ?case by simp
next
  case (Cons bg bgs)
  have "best_boost_score (boost_step fit1 bg v1) = best_boost_score (boost_step fit2 bg v2)"
    "best_boost_params (boost_step fit1 bg v1) = best_boost_params (boost_step fit2 bg v2)"
    using Cons.prems by (simp_all add: boost_step_def invoke_fit_def Let_def)
  moreover have "\<forall>b\<in>set bgs. score (fit1 b X_train) X_train = score (fit2 b X_train) X_train"
    using Cons.prems by simp
  ultimately show ?case
    using Cons.IH [of "boost_step fit1 bg v1" "boost_step fit2 bg v2"] by simp
qed

text \<open>
  Claim C8 does not hold of the boosted-tree cell: the score it compares and keeps is
  \<open>boost.score(X_train, y_train)\<close>, the accuracy on the training set. With a first
  combination of training accuracy 1 and held-out accuracy 0.6, and a second one of
  training accuracy 0.9 and held-out accuracy 0.8, the cell keeps the first one and prints
  1 on its \<open>OOB\<close> line.
\<close>

theorem boost_cell_selects_on_training_accuracy:
  "boost_cell (table_boost [(leaf1, 1, 0.6), (leaf3, 0.9, 0.8)]) [leaf1, leaf3] =
     ([OOB 1, Best_parameters leaf1], None) \<and>
   score (table_boost [(leaf1, 1, 0.6), (leaf3, 0.9, 0.8)] leaf1 X_train) X_train = 1 \<and>
   score (table_boost [(leaf1, 1, 0.6), (leaf3, 0.9, 0.8)] leaf1 X_train) X_valid = 0.6 \<and>
   score (table_boost [(leaf1, 1, 0.6), (leaf3, 0.9, 0.8)] leaf3 X_train) X_valid = 0.8"
  by (simp add: cell_defs)

section \<open>The submission file\<close>

lemma write_submission_rows:
  "write_submission y =
     [Text ''Id'', Text ''subscription''] #
     map (\<lambda>(i, l). [Number (int i), Number l]) (enumerate 0 y)"
proof -
  have "map (\<lambda>i. [Number (int i), Number (y ! i)]) [0..<length y] =
        map (\<lambda>(i, l). [Number (int i), Number l]) (enumerate 0 y)"
    by (rule nth_equalityI) (simp_all add: nth_enumerate_eq)
  then show ?thesis by (simp add: write_submission_def)
qed

lemma predict_length: "length (predict m t) = length t"
  by (simp add: predict_def)

lemma predict_nth: "i < length t \<Longrightarrow> predict m t ! i = m (snd (t ! i))"
  by (simp add: predict_def split_beta)

lemma keyed_rows_agree_iff:
  "submission_cell m t = rows_keyed_by_record_id m t \<longleftrightarrow> map fst t = map int [0..<length t]"
proof
  assume eq: "submission_cell m t = rows_keyed_by_record_id m t"
  then have rows: "map (\<lambda>i. [Number (int i), Number (predict m t ! i)]) [0..<length t] =
                   map (\<lambda>(i, x). [Number i, Number (m x)]) t"
    by (simp add: submission_cell_def write_submission_def rows_keyed_by_record_id_def
        predict_length)
  show "map fst t = map int [0..<length t]"
  proof (rule nth_equalityI)
    show "length (map fst t) = length (map int [0..<length t])" by simp
  next
    fix i assume "i < length (map fst t)"
    then have i: "i < length t" by simp
    from rows have "map (\<lambda>i. [Number (int i), Number (predict m t ! i)]) [0..<length t] ! i =
                    map (\<lambda>(i, x). [Number i, Number (m x)]) t ! i" by simp
    then have "fst (t ! i) = int i" using i by (simp add: split_beta)
    then show "map fst t ! i = map int [0..<length t] ! i" using i by simp
  qed
next
  assume ids: "map fst t = map int [0..<length t]"
  have k: "fst (t ! i) = int i" if "i < length t" for i
  proof -
    have "map fst t ! i = map int [0..<length t] ! i" using ids by simp
    then show ?thesis using that by simp
  qed
  have "map (\<lambda>i. [Number (int i), Number (predict m t ! i)]) [0..<length t] =
        map (\<lambda>(i, x). [Number i, Number (m x)]) t"
    by (rule nth_equalityI) (simp_all add: split_beta predict_nth k)
  then show "submission_cell m t = rows_keyed_by_record_id m t"
    by (simp add: submission_cell_def write_submission_def rows_keyed_by_record_id_def
        predict_length)
qed

text \<open>
  Claim C9, as stated, fails: for a test set whose records have the identifiers 10 and 20
  the file holds the keys 0 and 1.
\<close>

theorem submission_rows_counterexample:
  "submission_cell id [(10::int, 1::int), (20, 0)] =
     [[Text ''Id'', Text ''subscription''], [Number 0, Number 1], [Number 1, Number 0]] \<and>
   rows_keyed_by_record_id id [(10::int, 1::int), (20, 0)] =
     [[Text ''Id'', Text ''subscription''], [Number 10, Number 1], [Number 20, Number 0]] \<and>
   submission_cell id [(10::int, 1::int), (20, 0)] \<noteq>
   rows_keyed_by_record_id id [(10::int, 1::int), (20, 0)]"
  by (simp add: submission_cell_def write_submission_def predict_def
      rows_keyed_by_record_id_def upt_rec)

text \<open>
  Claim C9, amended. The submission file holds the header row followed by one row per
  prediction, keyed by the position of the prediction in the prediction array, counted
  from 0. These rows are the rows keyed by record identifier exactly when the identifiers
  of the test set are 0, 1, 2, ... in row order.
\<close>

theorem submission_rows_keyed_by_position:
  "submission_cell m t =
     [Text ''Id'', Text ''subscription''] #
     map (\<lambda>(i, l). [Number (int i), Number l]) (enumerate 0 (predict m t)) \<and>
   length (submission_cell m t) = Suc (length t) \<and>
   (submission_cell m t = rows_keyed_by_record_id m t \<longleftrightarrow> map fst t = map int [0..<length t])"
  using keyed_rows_agree_iff [of m t]
  by (simp add: submission_cell_def write_submission_rows predict_length)

theorem submission_rows_keyed_by_position_witness:
  "map fst [(0::int, 1::int), (1, 0)] = map int [0..<length [(0::int, 1::int), (1, 0)]] \<and>
   submission_cell id [(0::int, 1::int), (1, 0)] =
   rows_keyed_by_record_id id [(0::int, 1::int), (1, 0)]"
proof -
  have h: "map fst [(0::int, 1::int), (1, 0)] = map int [0..<length [(0::int, 1::int), (1, 0)]]"
    by (simp add: upt_rec)
  from submission_rows_keyed_by_position [of id "[(0::int, 1::int), (1, 0)]"] h
  show ?thesis by blast
qed

end
